theory Spec2Isabelle
  imports Main
begin

section \<open>JavaScript values and request bodies\<close>

text \<open>
  A request body is the object that \<^verbatim>\<open>express.json()\<close> parsed; the handlers
  destructure it (\<^verbatim>\<open>const { firstName, lastName, email } = req.body\<close>) and test the
  values for truthiness. A key the body does not have destructures to \<^verbatim>\<open>undefined\<close>.
  Numbers are integers here: the handlers only test a number against zero and use it
  as a row key. \<open>JSNaN\<close> is what \<^verbatim>\<open>parseInt\<close> gives on a path segment that does not
  start with a number.
\<close>

datatype jsvalue =
    JSUndefined
  | JSNull
  | JSBool bool
  | JSNumber int
  | JSNaN
  | JSString string
  | JSArray "jsvalue list"
  | JSObject "(string \<times> jsvalue) list"

fun truthy :: "jsvalue \<Rightarrow> bool" where
  "truthy JSUndefined = False"
| "truthy JSNull = False"
| "truthy (JSBool b) = b"
| "truthy (JSNumber n) = (n \<noteq> 0)"
| "truthy JSNaN = False"
| "truthy (JSString s) = (s \<noteq> [])"
| "truthy (JSArray xs) = True"
| "truthy (JSObject kvs) = True"

type_synonym body = "string \<rightharpoonup> jsvalue"

definition body_field :: "body \<Rightarrow> string \<Rightarrow> jsvalue" where
  "body_field b k = (case b k of None \<Rightarrow> JSUndefined | Some v \<Rightarrow> v)"

text \<open>
  \<^verbatim>\<open>parseInt(req.params.id)\<close> is an integer or NaN; the handlers below take that
  result (\<open>None\<close> for NaN) as their path parameter.
\<close>

definition js_number :: "int option \<Rightarrow> jsvalue" where
  "js_number n = (case n of None \<Rightarrow> JSNaN | Some i \<Rightarrow> JSNumber i)"

section \<open>Schema (init.sql)\<close>

text \<open>
  Modelled from the spec: the entity classes \<^verbatim>\<open>entity/User\<close> and \<^verbatim>\<open>entity/Post\<close>
  that index.ts imports; their columns are the ones of init.sql. A text column holds
  the JavaScript value the handler assigned to the entity's property (what the
  response serialises); the engine's conversion of a value that is not a string is
  outside the model. The owner column \<open>userId\<close> is \<^verbatim>\<open>INT NOT NULL\<close>.
\<close>

record user =
  user_id :: int
  firstName :: jsvalue
  lastName :: jsvalue
  email :: jsvalue

record post =
  post_id :: int
  title :: jsvalue
  description :: jsvalue
  userId :: int

text \<open>
  The statements the handlers issue through the two repositories. \<open>queries\<close> records
  them in the order issued, so that a theorem can say which statements a request
  performed.
\<close>

datatype db_op =
    UserFind | UserFindOne | UserSave | UserRemove
  | PostFind | PostFindOne | PostSave | PostRemove

text \<open>
  What the storage engine makes of the value of a \<^verbatim>\<open>where: { id: v }\<close> clause: it
  rejects the query (the call throws), or it compares the integer key column with a
  number, which is the key of at most one row or of none.
\<close>

datatype reading = Rejected | NoKey | Key int

text \<open>
  The ORM and the engine are not part of the repository. How they read a where value
  that is not a number (a string, a boolean, an array, an object) is therefore a
  parameter of the data source, \<open>reads\<close>; nothing below fixes it.
\<close>

record data_source =
  users :: "user list"
  posts :: "post list"
  nextUserId :: int
  nextPostId :: int
  queries :: "db_op list"
  reads :: "jsvalue \<Rightarrow> reading"

definition initial :: "(jsvalue \<Rightarrow> reading) \<Rightarrow> data_source" where
  "initial engine = \<lparr>users = [], posts = [], nextUserId = 1, nextPostId = 1, queries = [],
                      reads = engine\<rparr>"

text \<open>
  Any repository call may throw (connection lost, constraint violated, query
  rejected). \<open>faults\<close> says which calls of one request throw, and with which error
  text; it is a parameter of every handler.
\<close>

type_synonym faults = "db_op \<Rightarrow> string option"

definition no_faults :: faults where
  "no_faults = (\<lambda>_. None)"

definition issue :: "db_op \<Rightarrow> data_source \<Rightarrow> data_source" where
  "issue q ds = ds\<lparr>queries := queries ds @ [q]\<rparr>"

text \<open>
  \<^verbatim>\<open>where: { id: v }\<close>: a number selects the rows with that key; NaN, which is what
  the path routes pass when the path segment is not a number, makes the query fail;
  every other value is read by the engine of the data source.
\<close>

definition where_id :: "data_source \<Rightarrow> jsvalue \<Rightarrow> reading" where
  "where_id ds v =
     (case v of JSNumber n \<Rightarrow> Key n | JSNaN \<Rightarrow> Rejected | _ \<Rightarrow> reads ds v)"

text \<open>The error a rejected query throws; like every error text, no handler reads it.\<close>

definition query_rejected :: string where
  "query_rejected = ''query rejected''"

section \<open>Data access layer\<close>

definition userRepository_find :: "faults \<Rightarrow> data_source \<Rightarrow> (string + user list) \<times> data_source" where
  "userRepository_find fails ds =
     (case fails UserFind of
        Some e \<Rightarrow> (Inl e, issue UserFind ds)
      | None \<Rightarrow> (Inr (users ds), issue UserFind ds))"

definition userRepository_findOne ::
  "faults \<Rightarrow> jsvalue \<Rightarrow> data_source \<Rightarrow> (string + user option) \<times> data_source" where
  "userRepository_findOne fails k ds =
     (case fails UserFindOne of
        Some e \<Rightarrow> (Inl e, issue UserFindOne ds)
      | None \<Rightarrow>
          (case where_id ds k of
             Rejected \<Rightarrow> (Inl query_rejected, issue UserFindOne ds)
           | NoKey \<Rightarrow> (Inr None, issue UserFindOne ds)
           | Key n \<Rightarrow> (Inr (find (\<lambda>u. user_id u = n) (users ds)), issue UserFindOne ds)))"

text \<open>\<^verbatim>\<open>save\<close> of an entity that \<^verbatim>\<open>create\<close> built: an INSERT, the key is AUTO_INCREMENT.\<close>

definition userRepository_save_new ::
  "faults \<Rightarrow> jsvalue \<Rightarrow> jsvalue \<Rightarrow> jsvalue \<Rightarrow> data_source \<Rightarrow> (string + user) \<times> data_source" where
  "userRepository_save_new fails fn ln em ds =
     (case fails UserSave of
        Some e \<Rightarrow> (Inl e, issue UserSave ds)
      | None \<Rightarrow>
          (let newUser = \<lparr>user_id = nextUserId ds, firstName = fn, lastName = ln, email = em\<rparr>
           in (Inr newUser,
               issue UserSave (ds\<lparr>users := users ds @ [newUser],
                                  nextUserId := nextUserId ds + 1\<rparr>))))"

text \<open>\<^verbatim>\<open>save\<close> of an entity that \<^verbatim>\<open>findOne\<close> loaded: an UPDATE of the row with its key.\<close>

definition userRepository_save :: "faults \<Rightarrow> user \<Rightarrow> data_source \<Rightarrow> (string + user) \<times> data_source" where
  "userRepository_save fails u ds =
     (case fails UserSave of
        Some e \<Rightarrow> (Inl e, issue UserSave ds)
      | None \<Rightarrow>
          (Inr u,
           issue UserSave
             (ds\<lparr>users := map (\<lambda>r. if user_id r = user_id u then u else r) (users ds)\<rparr>)))"

text \<open>
  Modelled from the spec: the cascade of a user's removal to the posts it owns, which
  the storage engine performs (the entity classes that declare the relation are not
  in src/). \<^verbatim>\<open>remove\<close> of a user is the DELETE of the row; the foreign key, declared
  in init.sql as \<^verbatim>\<open>FOREIGN KEY (userId) REFERENCES user(id) ON DELETE CASCADE\<close>, deletes
  the posts that reference it in the same statement.
\<close>

definition userRepository_remove :: "faults \<Rightarrow> user \<Rightarrow> data_source \<Rightarrow> (string + unit) \<times> data_source" where
  "userRepository_remove fails u ds =
     (case fails UserRemove of
        Some e \<Rightarrow> (Inl e, issue UserRemove ds)
      | None \<Rightarrow>
          (Inr (),
           issue UserRemove
             (ds\<lparr>users := filter (\<lambda>r. user_id r \<noteq> user_id u) (users ds),
                 posts := filter (\<lambda>p. userId p \<noteq> user_id u) (posts ds)\<rparr>)))"

text \<open>\<^verbatim>\<open>find({ where: { user: { id: v } } })\<close>.\<close>

definition postRepository_find ::
  "faults \<Rightarrow> jsvalue \<Rightarrow> data_source \<Rightarrow> (string + post list) \<times> data_source" where
  "postRepository_find fails k ds =
     (case fails PostFind of
        Some e \<Rightarrow> (Inl e, issue PostFind ds)
      | None \<Rightarrow>
          (case where_id ds k of
             Rejected \<Rightarrow> (Inl query_rejected, issue PostFind ds)
           | NoKey \<Rightarrow> (Inr [], issue PostFind ds)
           | Key n \<Rightarrow> (Inr (filter (\<lambda>p. userId p = n) (posts ds)), issue PostFind ds)))"

definition postRepository_findOne ::
  "faults \<Rightarrow> jsvalue \<Rightarrow> data_source \<Rightarrow> (string + post option) \<times> data_source" where
  "postRepository_findOne fails k ds =
     (case fails PostFindOne of
        Some e \<Rightarrow> (Inl e, issue PostFindOne ds)
      | None \<Rightarrow>
          (case where_id ds k of
             Rejected \<Rightarrow> (Inl query_rejected, issue PostFindOne ds)
           | NoKey \<Rightarrow> (Inr None, issue PostFindOne ds)
           | Key n \<Rightarrow> (Inr (find (\<lambda>p. post_id p = n) (posts ds)), issue PostFindOne ds)))"

text \<open>\<^verbatim>\<open>save(create({ title, description, user }))\<close>: the owner column is the user's key.\<close>

definition postRepository_save_new ::
  "faults \<Rightarrow> jsvalue \<Rightarrow> jsvalue \<Rightarrow> user \<Rightarrow> data_source \<Rightarrow> (string + post) \<times> data_source" where
  "postRepository_save_new fails t d u ds =
     (case fails PostSave of
        Some e \<Rightarrow> (Inl e, issue PostSave ds)
      | None \<Rightarrow>
          (let newPost = \<lparr>post_id = nextPostId ds, title = t, description = d,
                          userId = user_id u\<rparr>
           in (Inr newPost,
               issue PostSave (ds\<lparr>posts := posts ds @ [newPost],
                                  nextPostId := nextPostId ds + 1\<rparr>))))"

definition postRepository_save :: "faults \<Rightarrow> post \<Rightarrow> data_source \<Rightarrow> (string + post) \<times> data_source" where
  "postRepository_save fails p ds =
     (case fails PostSave of
        Some e \<Rightarrow> (Inl e, issue PostSave ds)
      | None \<Rightarrow>
          (Inr p,
           issue PostSave
             (ds\<lparr>posts := map (\<lambda>r. if post_id r = post_id p then p else r) (posts ds)\<rparr>)))"

definition postRepository_remove :: "faults \<Rightarrow> post \<Rightarrow> data_source \<Rightarrow> (string + unit) \<times> data_source" where
  "postRepository_remove fails p ds =
     (case fails PostRemove of
        Some e \<Rightarrow> (Inl e, issue PostRemove ds)
      | None \<Rightarrow>
          (Inr (),
           issue PostRemove (ds\<lparr>posts := filter (\<lambda>r. post_id r \<noteq> post_id p) (posts ds)\<rparr>)))"

section \<open>Request handlers (index.ts)\<close>

datatype payload =
    Message string
  | UserJson user
  | UsersJson "user list"
  | PostJson post
  | NewPostJson post user
  | PostsJson "post list"

record response =
  status :: nat
  json :: payload

definition reply :: "nat \<Rightarrow> payload \<Rightarrow> response" where
  "reply s j = \<lparr>status = s, json = j\<rparr>"

text \<open>GET /users\<close>

definition get_users :: "faults \<Rightarrow> data_source \<Rightarrow> response \<times> data_source" where
  "get_users fails ds =
     (case userRepository_find fails ds of
        (Inl error, ds1) \<Rightarrow> (reply 500 (Message ''Error fetching users''), ds1)
      | (Inr us, ds1) \<Rightarrow> (reply 200 (UsersJson us), ds1))"

text \<open>POST /users\<close>

definition post_users :: "faults \<Rightarrow> body \<Rightarrow> data_source \<Rightarrow> response \<times> data_source" where
  "post_users fails b ds =
     (case userRepository_save_new fails (body_field b ''firstName'') (body_field b ''lastName'')
             (body_field b ''email'') ds of
        (Inl error, ds1) \<Rightarrow> (reply 500 (Message ''Error creating user''), ds1)
      | (Inr newUser, ds1) \<Rightarrow> (reply 201 (UserJson newUser), ds1))"

text \<open>PUT /users/:id\<close>

definition assign_user :: "body \<Rightarrow> user \<Rightarrow> user" where
  "assign_user b u =
     (let u1 = (if truthy (body_field b ''firstName'')
                then u\<lparr>firstName := body_field b ''firstName''\<rparr> else u);
          u2 = (if truthy (body_field b ''lastName'')
                then u1\<lparr>lastName := body_field b ''lastName''\<rparr> else u1);
          u3 = (if truthy (body_field b ''email'')
                then u2\<lparr>email := body_field b ''email''\<rparr> else u2)
      in u3)"

definition put_users_id :: "faults \<Rightarrow> int option \<Rightarrow> body \<Rightarrow> data_source \<Rightarrow> response \<times> data_source" where
  "put_users_id fails i b ds =
     (case userRepository_findOne fails (js_number i) ds of
        (Inl error, ds1) \<Rightarrow> (reply 500 (Message ''Error updating user''), ds1)
      | (Inr None, ds1) \<Rightarrow> (reply 404 (Message ''User not found''), ds1)
      | (Inr (Some u), ds1) \<Rightarrow>
          (case userRepository_save fails (assign_user b u) ds1 of
             (Inl error, ds2) \<Rightarrow> (reply 500 (Message ''Error updating user''), ds2)
           | (Inr saved, ds2) \<Rightarrow> (reply 200 (UserJson saved), ds2)))"

text \<open>DELETE /users/:id\<close>

definition delete_users_id :: "faults \<Rightarrow> int option \<Rightarrow> data_source \<Rightarrow> response \<times> data_source" where
  "delete_users_id fails i ds =
     (case userRepository_findOne fails (js_number i) ds of
        (Inl error, ds1) \<Rightarrow> (reply 500 (Message ''Error deleting user''), ds1)
      | (Inr None, ds1) \<Rightarrow> (reply 404 (Message ''User not found''), ds1)
      | (Inr (Some u), ds1) \<Rightarrow>
          (case userRepository_remove fails u ds1 of
             (Inl error, ds2) \<Rightarrow> (reply 500 (Message ''Error deleting user''), ds2)
           | (Inr _, ds2) \<Rightarrow> (reply 200 (Message ''User deleted successfully''), ds2)))"

text \<open>POST /posts\<close>

definition post_posts :: "faults \<Rightarrow> body \<Rightarrow> data_source \<Rightarrow> response \<times> data_source" where
  "post_posts fails b ds =
     (if \<not> truthy (body_field b ''title'') \<or> \<not> truthy (body_field b ''description'')
         \<or> \<not> truthy (body_field b ''userId'')
      then (reply 400 (Message ''Title, description, and userId are required''), ds)
      else
        (case userRepository_findOne fails (body_field b ''userId'') ds of
           (Inl error, ds1) \<Rightarrow> (reply 500 (Message ''Error creating post''), ds1)
         | (Inr None, ds1) \<Rightarrow> (reply 404 (Message ''User not found''), ds1)
         | (Inr (Some u), ds1) \<Rightarrow>
             (case postRepository_save_new fails (body_field b ''title'')
                     (body_field b ''description'') u ds1 of
                (Inl error, ds2) \<Rightarrow> (reply 500 (Message ''Error creating post''), ds2)
              | (Inr newPost, ds2) \<Rightarrow> (reply 201 (NewPostJson newPost u), ds2))))"

text \<open>GET /users/:id/posts\<close>

definition get_users_id_posts :: "faults \<Rightarrow> int option \<Rightarrow> data_source \<Rightarrow> response \<times> data_source" where
  "get_users_id_posts fails i ds =
     (case postRepository_find fails (js_number i) ds of
        (Inl error, ds1) \<Rightarrow> (reply 500 (Message ''Error fetching posts''), ds1)
      | (Inr ps, ds1) \<Rightarrow> (reply 200 (PostsJson ps), ds1))"

text \<open>PUT /posts/:id\<close>

definition assign_post :: "body \<Rightarrow> post \<Rightarrow> post" where
  "assign_post b p =
     (let p1 = p\<lparr>title := (if truthy (body_field b ''title'')
                            then body_field b ''title'' else title p)\<rparr>;
          p2 = p1\<lparr>description := (if truthy (body_field b ''description'')
                                   then body_field b ''description'' else description p1)\<rparr>
      in p2)"

definition put_posts_id :: "faults \<Rightarrow> int option \<Rightarrow> body \<Rightarrow> data_source \<Rightarrow> response \<times> data_source" where
  "put_posts_id fails i b ds =
     (case postRepository_findOne fails (js_number i) ds of
        (Inl error, ds1) \<Rightarrow> (reply 500 (Message ''Error updating post''), ds1)
      | (Inr None, ds1) \<Rightarrow> (reply 404 (Message ''Post not found''), ds1)
      | (Inr (Some p), ds1) \<Rightarrow>
          (case postRepository_save fails (assign_post b p) ds1 of
             (Inl error, ds2) \<Rightarrow> (reply 500 (Message ''Error updating post''), ds2)
           | (Inr saved, ds2) \<Rightarrow> (reply 200 (PostJson saved), ds2)))"

text \<open>DELETE /posts/:id\<close>

definition delete_posts_id :: "faults \<Rightarrow> int option \<Rightarrow> data_source \<Rightarrow> response \<times> data_source" where
  "delete_posts_id fails i ds =
     (case postRepository_findOne fails (js_number i) ds of
        (Inl error, ds1) \<Rightarrow> (reply 500 (Message ''Error deleting post''), ds1)
      | (Inr None, ds1) \<Rightarrow> (reply 404 (Message ''Post not found''), ds1)
      | (Inr (Some p), ds1) \<Rightarrow>
          (case postRepository_remove fails p ds1 of
             (Inl error, ds2) \<Rightarrow> (reply 500 (Message ''Error deleting post''), ds2)
           | (Inr _, ds2) \<Rightarrow> (reply 200 (Message ''Post deleted successfully''), ds2)))"

text \<open>The router: the eight routes registered on \<^verbatim>\<open>app\<close>.\<close>

datatype request =
    GET_users
  | POST_users body
  | PUT_users_id "int option" body
  | DELETE_users_id "int option"
  | POST_posts body
  | GET_users_id_posts "int option"
  | PUT_posts_id "int option" body
  | DELETE_posts_id "int option"

fun handle :: "faults \<Rightarrow> request \<Rightarrow> data_source \<Rightarrow> response \<times> data_source" where
  "handle fails GET_users ds = get_users fails ds"
| "handle fails (POST_users b) ds = post_users fails b ds"
| "handle fails (PUT_users_id i b) ds = put_users_id fails i b ds"
| "handle fails (DELETE_users_id i) ds = delete_users_id fails i ds"
| "handle fails (POST_posts b) ds = post_posts fails b ds"
| "handle fails (GET_users_id_posts i) ds = get_users_id_posts fails i ds"
| "handle fails (PUT_posts_id i b) ds = put_posts_id fails i b ds"
| "handle fails (DELETE_posts_id i) ds = delete_posts_id fails i ds"

section \<open>Connection manager (initializeDatabase)\<close>

text \<open>
  The state of the retry loop: the counter \<^verbatim>\<open>retries\<close>, the calls of
  \<^verbatim>\<open>AppDataSource.initialize()\<close> made so far, the milliseconds asked of
  \<^verbatim>\<open>setTimeout\<close> so far, and whether a call succeeded. \<open>initialize k\<close> says whether
  the call number \<open>k\<close> (counted from 0) succeeds.
\<close>

record startup =
  retries :: nat
  attempts :: nat
  waited :: nat
  connected :: bool

function while_retries :: "(nat \<Rightarrow> bool) \<Rightarrow> startup \<Rightarrow> startup" where
  "while_retries initialize s =
     (if retries s = 0 then s
      else if initialize (attempts s)
        then s\<lparr>attempts := attempts s + 1, connected := True\<rparr>
        else while_retries initialize
               (s\<lparr>retries := retries s - 1, attempts := attempts s + 1,
                  waited := waited s + 5000\<rparr>))"
  by pat_completeness auto
termination
  by (relation "measure (\<lambda>(initialize, s). retries s)") auto

declare while_retries.simps [simp del]

text \<open>The second component is the exit code of \<^verbatim>\<open>process.exit\<close>, when it is called.\<close>

definition initializeDatabase :: "(nat \<Rightarrow> bool) \<Rightarrow> startup \<times> nat option" where
  "initializeDatabase initialize =
     (let s = while_retries initialize
                \<lparr>retries = 10, attempts = 0, waited = 0, connected = False\<rparr>
      in (s, if retries s = 0 then Some 1 else None))"

section \<open>Reachable states and the ownership invariant\<close>

text \<open>
  The states the service reaches from the empty tables, one request at a time,
  whatever the engine of the data source.
\<close>

inductive reachable :: "data_source \<Rightarrow> bool" where
  start: "reachable (initial engine)"
| request: "reachable ds \<Longrightarrow> reachable (snd (handle fails req ds))"

text \<open>Every post row has exactly one user row whose key is its owner column.\<close>

definition owned :: "data_source \<Rightarrow> bool" where
  "owned ds =
     list_all (\<lambda>p. length (filter (\<lambda>u. user_id u = userId p) (users ds)) = 1) (posts ds)"

text \<open>The key constraints of init.sql: primary keys are unique, the foreign key is valid.\<close>

definition constraints :: "data_source \<Rightarrow> bool" where
  "constraints ds =
     (distinct (map user_id (users ds)) \<and> distinct (map post_id (posts ds))
      \<and> list_all (\<lambda>u. user_id u < nextUserId ds) (users ds)
      \<and> list_all (\<lambda>p. post_id p < nextPostId ds) (posts ds)
      \<and> list_all (\<lambda>p. userId p \<in> set (map user_id (users ds))) (posts ds))"

text \<open>The statements a request issued: what it appended to \<open>queries\<close>.\<close>

definition issued :: "data_source \<Rightarrow> data_source \<Rightarrow> db_op list" where
  "issued ds ds' = drop (length (queries ds)) (queries ds')"

section \<open>A worked example\<close>

text \<open>
  The end-to-end scenario: POST /users with \<^verbatim>\<open>{firstName:"A",lastName:"B",email:"a@b.com"}\<close>
  on the empty tables, then POST /posts with \<^verbatim>\<open>{title:"T",description:"D",userId:1}\<close>.
\<close>

definition alice :: user where
  "alice = \<lparr>user_id = 1, firstName = JSString ''A'', lastName = JSString ''B'',
             email = JSString ''a@b.com''\<rparr>"

definition first_post :: post where
  "first_post = \<lparr>post_id = 1, title = JSString ''T'', description = JSString ''D'', userId = 1\<rparr>"

definition end_to_end :: "(jsvalue \<Rightarrow> reading) \<Rightarrow> data_source" where
  "end_to_end engine =
     snd (handle no_faults
            (POST_posts [''title'' \<mapsto> JSString ''T'', ''description'' \<mapsto> JSString ''D'',
                         ''userId'' \<mapsto> JSNumber 1])
            (snd (handle no_faults
                    (POST_users [''firstName'' \<mapsto> JSString ''A'', ''lastName'' \<mapsto> JSString ''B'',
                                 ''email'' \<mapsto> JSString ''a@b.com''])
                    (initial engine))))"

section \<open>POST /posts: the presence check\<close>

text \<open>
  C4. POST /posts with a body in which title, description or userId is missing or
  falsy answers 400 and returns the data source as it received it: no row is added,
  and no statement is issued (\<open>queries\<close> is unchanged too), whatever the repositories
  would have done.
\<close>

theorem post_posts_missing_field:
  assumes "\<not> truthy (body_field b ''title'') \<or> \<not> truthy (body_field b ''description'')
           \<or> \<not> truthy (body_field b ''userId'')"
  shows "post_posts fails b ds =
           (reply 400 (Message ''Title, description, and userId are required''), ds)"
  using assms by (auto simp: post_posts_def)

theorem post_posts_missing_field_witness:
  "post_posts (\<lambda>_. Some ''down'')
     [''title'' \<mapsto> JSString ''T'', ''description'' \<mapsto> JSString '''', ''userId'' \<mapsto> JSNumber 1]
     (initial (\<lambda>v. Rejected)) =
   (reply 400 (Message ''Title, description, and userId are required''),
    initial (\<lambda>v. Rejected))"
  using post_posts_missing_field
    [of "[''title'' \<mapsto> JSString ''T'', ''description'' \<mapsto> JSString '''', ''userId'' \<mapsto> JSNumber 1]"
        "\<lambda>_. Some ''down''" "initial (\<lambda>v. Rejected)"]
  by (simp add: body_field_def)

section \<open>The retry loop\<close>

lemma while_retries_zero: "retries s = 0 \<Longrightarrow> while_retries initialize s = s"
  by (subst while_retries.simps) simp

lemma while_retries_ok:
  "retries s \<noteq> 0 \<Longrightarrow> initialize (attempts s) \<Longrightarrow>
   while_retries initialize s = s\<lparr>attempts := attempts s + 1, connected := True\<rparr>"
  by (subst while_retries.simps) simp

lemma while_retries_fail:
  "retries s \<noteq> 0 \<Longrightarrow> \<not> initialize (attempts s) \<Longrightarrow>
   while_retries initialize s =
     while_retries initialize
       (s\<lparr>retries := retries s - 1, attempts := attempts s + 1, waited := waited s + 5000\<rparr>)"
  by (subst while_retries.simps) simp

lemma while_retries_all_fail:
  "\<forall>j<retries s. \<not> initialize (attempts s + j) \<Longrightarrow>
   while_retries initialize s =
     s\<lparr>retries := 0, attempts := attempts s + retries s, waited := waited s + 5000 * retries s\<rparr>"
proof (induction "retries s" arbitrary: s)
  case 0
  then show ?case by (simp add: while_retries_zero)
next
  case (Suc n)
  let ?s = "s\<lparr>retries := retries s - 1, attempts := attempts s + 1, waited := waited s + 5000\<rparr>"
  from Suc.hyps(2) have pos: "retries s \<noteq> 0" by simp
  from Suc.prems pos have nf: "\<not> initialize (attempts s)"
    by (metis add.right_neutral gr0I)
  have n: "n = retries ?s" using Suc.hyps(2) by simp
  have "\<forall>j<retries ?s. \<not> initialize (attempts ?s + j)"
  proof (intro allI impI)
    fix j assume "j < retries ?s"
    then have "Suc j < retries s" by simp
    with Suc.prems have "\<not> initialize (attempts s + Suc j)" by blast
    then show "\<not> initialize (attempts ?s + j)" by simp
  qed
  from Suc.hyps(1)[OF n this] have
    "while_retries initialize ?s =
       ?s\<lparr>retries := 0, attempts := attempts ?s + retries ?s, waited := waited ?s + 5000 * retries ?s\<rparr>" .
  with pos show ?case
    by (simp add: while_retries_fail[of s initialize, OF pos nf] Suc.hyps(2)[symmetric])
qed

lemma while_retries_first_success:
  "j < retries s \<Longrightarrow> \<forall>i<j. \<not> initialize (attempts s + i) \<Longrightarrow> initialize (attempts s + j) \<Longrightarrow>
   while_retries initialize s =
     s\<lparr>retries := retries s - j, attempts := attempts s + j + 1, waited := waited s + 5000 * j,
       connected := True\<rparr>"
proof (induction j arbitrary: s)
  case 0
  then show ?case by (simp add: while_retries_ok)
next
  case (Suc j)
  let ?s = "s\<lparr>retries := retries s - 1, attempts := attempts s + 1, waited := waited s + 5000\<rparr>"
  from Suc.prems(1) have pos: "retries s \<noteq> 0" by simp
  from Suc.prems(2) have nf: "\<not> initialize (attempts s)" by (metis add.right_neutral zero_less_Suc)
  have a: "j < retries ?s" using Suc.prems by simp
  have b: "\<forall>i<j. \<not> initialize (attempts ?s + i)"
  proof (intro allI impI)
    fix i assume "i < j"
    then have "Suc i < Suc j" by simp
    with Suc.prems(2) have "\<not> initialize (attempts s + Suc i)" by blast
    then show "\<not> initialize (attempts ?s + i)" by simp
  qed
  have c: "initialize (attempts ?s + j)" using Suc.prems(3) by simp
  from Suc.IH[OF a b c] show ?case
    by (simp add: while_retries_fail[of s initialize, OF pos nf])
qed


lemma initializeDatabase_exhausted:
  assumes "\<forall>k<10. \<not> initialize k"
  shows "initializeDatabase initialize =
           (\<lparr>retries = 0, attempts = 10, waited = 50000, connected = False\<rparr>, Some 1)"
proof -
  let ?s = "\<lparr>retries = 10, attempts = 0, waited = 0, connected = False\<rparr>"
  from assms have "\<forall>j<retries ?s. \<not> initialize (attempts ?s + j)" by simp
  from while_retries_all_fail[OF this] show ?thesis
    by (simp add: initializeDatabase_def)
qed

lemma initializeDatabase_connected:
  assumes "k < 10" and "initialize k" and "\<forall>i<k. \<not> initialize i"
  shows "initializeDatabase initialize =
           (\<lparr>retries = 10 - k, attempts = k + 1, waited = 5000 * k, connected = True\<rparr>, None)"
proof -
  let ?s = "\<lparr>retries = 10, attempts = 0, waited = 0, connected = False\<rparr>"
  have a: "k < retries ?s" using assms(1) by simp
  have b: "\<forall>i<k. \<not> initialize (attempts ?s + i)" using assms(3) by simp
  have c: "initialize (attempts ?s + k)" using assms(2) by simp
  from while_retries_first_success[OF a b c] assms(1) show ?thesis
    by (simp add: initializeDatabase_def)
qed

text \<open>
  C3. At startup \<open>initializeDatabase\<close> calls \<^verbatim>\<open>initialize\<close> at most 10 times and waits
  5000 ms after each failed call. When all 10 calls fail it has made exactly 10
  calls, has waited 50000 ms in total and exits with code 1. When the call number
  \<open>k\<close> is the first to succeed it stops there, after \<open>k + 1\<close> calls and \<open>5000 * k\<close> ms,
  and does not exit. It exits exactly when all 10 calls fail.
\<close>

theorem initializeDatabase_bounded_retry:
  "attempts (fst (initializeDatabase initialize)) \<le> 10
   \<and> waited (fst (initializeDatabase initialize)) =
       5000 * (attempts (fst (initializeDatabase initialize))
               - (if connected (fst (initializeDatabase initialize)) then 1 else 0))
   \<and> ((\<forall>k<10. \<not> initialize k) \<longrightarrow>
        initializeDatabase initialize =
          (\<lparr>retries = 0, attempts = 10, waited = 50000, connected = False\<rparr>, Some 1))
   \<and> (\<forall>k<10. initialize k \<and> (\<forall>i<k. \<not> initialize i) \<longrightarrow>
        initializeDatabase initialize =
          (\<lparr>retries = 10 - k, attempts = k + 1, waited = 5000 * k, connected = True\<rparr>, None))
   \<and> ((snd (initializeDatabase initialize) = None) = (\<exists>k<10. initialize k))
   \<and> ((snd (initializeDatabase initialize) = Some 1) = (\<forall>k<10. \<not> initialize k))"
proof (cases "\<forall>k<10. \<not> initialize k")
  case True
  from initializeDatabase_exhausted[OF True] True show ?thesis by simp
next
  case False
  then have ex: "\<exists>k. k < 10 \<and> initialize k" by blast
  define k where "k = (LEAST k. k < 10 \<and> initialize k)"
  from ex have k: "k < 10 \<and> initialize k" unfolding k_def by (rule LeastI_ex)
  have least: "\<forall>i<k. \<not> initialize i"
  proof (intro allI impI)
    fix i assume "i < k"
    then have "\<not> (i < 10 \<and> initialize i)" unfolding k_def by (rule not_less_Least)
    with \<open>i < k\<close> k show "\<not> initialize i" by simp
  qed
  have eq: "initializeDatabase initialize =
      (\<lparr>retries = 10 - k, attempts = k + 1, waited = 5000 * k, connected = True\<rparr>, None)"
    using initializeDatabase_connected k least by blast
  have uniq: "\<forall>j<10. initialize j \<and> (\<forall>i<j. \<not> initialize i) \<longrightarrow> j = k"
    using k least by (meson linorder_neqE_nat)
  from eq k False uniq show ?thesis by auto
qed

theorem initializeDatabase_bounded_retry_witness:
  "initializeDatabase (\<lambda>k. False) =
     (\<lparr>retries = 0, attempts = 10, waited = 50000, connected = False\<rparr>, Some 1)
   \<and> initializeDatabase (\<lambda>k. k = 2) =
     (\<lparr>retries = 8, attempts = 3, waited = 10000, connected = True\<rparr>, None)"
proof -
  have a: "\<forall>k<10. \<not> (\<lambda>k::nat. False) k" by simp
  have b: "(2::nat) < 10 \<and> (\<lambda>k::nat. k = 2) 2 \<and> (\<forall>i<2. \<not> (\<lambda>k::nat. k = 2) i)" by simp
  from initializeDatabase_bounded_retry[of "\<lambda>k. False"] a
  have 1: "initializeDatabase (\<lambda>k. False) =
     (\<lparr>retries = 0, attempts = 10, waited = 50000, connected = False\<rparr>, Some 1)" by blast
  from initializeDatabase_bounded_retry[of "\<lambda>k. k = 2"] b
  have 2: "initializeDatabase (\<lambda>k. k = 2) =
     (\<lparr>retries = 10 - 2, attempts = 2 + 1, waited = 5000 * 2, connected = True\<rparr>, None)"
    by blast
  from 1 2 show ?thesis by simp
qed

section \<open>Facts about the data access layer\<close>

lemmas repository_defs =
  userRepository_find_def userRepository_findOne_def userRepository_save_new_def
  userRepository_save_def userRepository_remove_def postRepository_find_def
  postRepository_findOne_def postRepository_save_new_def postRepository_save_def
  postRepository_remove_def

lemmas handler_defs =
  get_users_def post_users_def put_users_id_def delete_users_id_def post_posts_def
  get_users_id_posts_def put_posts_id_def delete_posts_id_def

lemma issue_simps [simp]:
  "reads (issue q ds) = reads ds"
  "users (issue q ds) = users ds"
  "posts (issue q ds) = posts ds"
  "nextUserId (issue q ds) = nextUserId ds"
  "nextPostId (issue q ds) = nextPostId ds"
  "queries (issue q ds) = queries ds @ [q]"
  by (simp_all add: issue_def)

lemma issue_commute [simp]:
  "(issue q ds)\<lparr>users := us\<rparr> = issue q (ds\<lparr>users := us\<rparr>)"
  "(issue q ds)\<lparr>posts := ps\<rparr> = issue q (ds\<lparr>posts := ps\<rparr>)"
  "(issue q ds)\<lparr>nextUserId := n\<rparr> = issue q (ds\<lparr>nextUserId := n\<rparr>)"
  "(issue q ds)\<lparr>nextPostId := n\<rparr> = issue q (ds\<lparr>nextPostId := n\<rparr>)"
  by (simp_all add: issue_def)

lemma where_id_simps [simp]:
  "where_id ds (JSNumber n) = Key n"
  "where_id ds JSNaN = Rejected"
  "where_id ds (js_number (Some i)) = Key i"
  "where_id ds (js_number None) = Rejected"
  by (simp_all add: where_id_def js_number_def)

lemma find_mem: "find P xs = Some x \<Longrightarrow> x \<in> set xs \<and> P x"
  by (induction xs) (auto split: if_splits)

lemma find_key_mem:
  "find (\<lambda>r. f r = k) xs = Some u \<Longrightarrow> u \<in> set xs \<and> f u = k"
  by (induction xs) (auto split: if_splits)

lemma find_key_ex:
  "k \<in> set (map f xs) \<Longrightarrow> \<exists>u. find (\<lambda>r. f r = k) xs = Some u \<and> f u = k"
  by (induction xs) auto

lemma find_replace:
  "find (\<lambda>r. f r = k) xs = Some u \<Longrightarrow> f u' = k \<Longrightarrow>
   find (\<lambda>r. f r = k) (map (\<lambda>r. if f r = k then u' else r) xs) = Some u'"
  by (induction xs) (auto split: if_splits)

lemma map_key_replace:
  "f u = k \<Longrightarrow> map f (map (\<lambda>r. if f r = k then u else r) xs) = map f xs"
  by (induction xs) auto

lemma replace_same:
  assumes "distinct (map f xs)" and "u \<in> set xs"
  shows "map (\<lambda>r. if f r = f u then u else r) xs = xs"
proof (rule map_idI)
  fix r assume "r \<in> set xs"
  from assms(1) have "inj_on f (set xs)" by (simp add: distinct_map)
  with \<open>r \<in> set xs\<close> assms(2) have "f r = f u \<Longrightarrow> r = u" by (auto dest: inj_onD)
  then show "(if f r = f u then u else r) = r" by auto
qed

lemma replace_keeps_column:
  assumes "distinct (map f xs)" and "u \<in> set xs" and "f u' = f u" and "g u' = g u"
  shows "map g (map (\<lambda>r. if f r = f u then u' else r) xs) = map g xs"
proof -
  from assms(1) have inj: "inj_on f (set xs)" by (simp add: distinct_map)
  have "g (if f r = f u then u' else r) = g r" if "r \<in> set xs" for r
  proof (cases "f r = f u")
    case True
    with inj that assms(2) have "r = u" by (auto dest: inj_onD)
    with True assms(4) show ?thesis by simp
  next
    case False
    then show ?thesis by simp
  qed
  then show ?thesis by (simp add: comp_def)
qed

lemma exactly_one_key:
  "distinct (map f xs) \<Longrightarrow> k \<in> set (map f xs) \<Longrightarrow> length (filter (\<lambda>r. f r = k) xs) = 1"
proof (induction xs)
  case Nil
  then show ?case by simp
next
  case (Cons x xs)
  show ?case
  proof (cases "f x = k")
    case True
    from Cons.prems(1) have "f x \<notin> f ` set xs" by simp
    with True have "\<forall>r \<in> set xs. f r \<noteq> k" by blast
    then have "filter (\<lambda>r. f r = k) xs = []"
      by (simp add: filter_empty_conv)
    with True show ?thesis by simp
  next
    case False
    with Cons show ?thesis by auto
  qed
qed

lemma userRepository_findOne_path:
  "userRepository_findOne fails (js_number (Some i)) ds =
     (case fails UserFindOne of
        Some e \<Rightarrow> (Inl e, issue UserFindOne ds)
      | None \<Rightarrow> (Inr (find (\<lambda>r. user_id r = i) (users ds)), issue UserFindOne ds))"
  by (cases "fails UserFindOne") (simp_all add: userRepository_findOne_def)

lemma postRepository_findOne_path:
  "postRepository_findOne fails (js_number (Some i)) ds =
     (case fails PostFindOne of
        Some e \<Rightarrow> (Inl e, issue PostFindOne ds)
      | None \<Rightarrow> (Inr (find (\<lambda>r. post_id r = i) (posts ds)), issue PostFindOne ds))"
  by (cases "fails PostFindOne") (simp_all add: postRepository_findOne_def)

lemma assign_user_simps [simp]:
  "user_id (assign_user b u) = user_id u"
  "firstName (assign_user b u) =
     (if truthy (body_field b ''firstName'') then body_field b ''firstName'' else firstName u)"
  "lastName (assign_user b u) =
     (if truthy (body_field b ''lastName'') then body_field b ''lastName'' else lastName u)"
  "email (assign_user b u) =
     (if truthy (body_field b ''email'') then body_field b ''email'' else email u)"
  by (simp_all add: assign_user_def Let_def)

lemma assign_post_simps [simp]:
  "post_id (assign_post b p) = post_id p"
  "userId (assign_post b p) = userId p"
  "title (assign_post b p) =
     (if truthy (body_field b ''title'') then body_field b ''title'' else title p)"
  "description (assign_post b p) =
     (if truthy (body_field b ''description'') then body_field b ''description''
      else description p)"
  by (simp_all add: assign_post_def Let_def)

lemma assign_user_record:
  "assign_user b u =
     \<lparr>user_id = user_id u,
      firstName = (if truthy (body_field b ''firstName'') then body_field b ''firstName''
                   else firstName u),
      lastName = (if truthy (body_field b ''lastName'') then body_field b ''lastName''
                  else lastName u),
      email = (if truthy (body_field b ''email'') then body_field b ''email'' else email u)\<rparr>"
  by (cases u) (simp add: assign_user_def Let_def)

lemma assign_post_record:
  "assign_post b p =
     \<lparr>post_id = post_id p,
      title = (if truthy (body_field b ''title'') then body_field b ''title'' else title p),
      description = (if truthy (body_field b ''description'') then body_field b ''description''
                     else description p),
      userId = userId p\<rparr>"
  by (cases p) (simp add: assign_post_def Let_def)

section \<open>The worked example, evaluated\<close>

lemma end_to_end_state:
  "end_to_end engine = \<lparr>users = [alice], posts = [first_post], nextUserId = 2, nextPostId = 2,
                         queries = [UserSave, UserFindOne, PostSave], reads = engine\<rparr>"
  by (simp add: end_to_end_def no_faults_def post_users_def post_posts_def
        userRepository_save_new_def userRepository_findOne_def postRepository_save_new_def
        body_field_def initial_def issue_def alice_def first_post_def Let_def)

lemma end_to_end_reachable: "reachable (end_to_end engine)"
  unfolding end_to_end_def by (intro reachable.intros)

lemma end_to_end_fields [simp]:
  "users (end_to_end engine) = [alice]" "posts (end_to_end engine) = [first_post]"
  "nextUserId (end_to_end engine) = 2" "nextPostId (end_to_end engine) = 2"
  "queries (end_to_end engine) = [UserSave, UserFindOne, PostSave]"
  "reads (end_to_end engine) = engine"
  by (simp_all add: end_to_end_state)

section \<open>Listing and creating posts\<close>

text \<open>
  C6. GET /users/:id/posts never answers 404. For an integer path parameter, when the
  query succeeds, it answers 200 with exactly the posts whose owner column equals the
  parameter, in table order; for an id that owns no post (a user without posts, or an
  id of no user) the array is empty. No check that the user exists is made: the
  handler issues the one \<open>PostFind\<close> query. A path segment that is not a number
  (NaN) makes that query fail, and the answer is 500.
\<close>

theorem get_users_id_posts_owned:
  "status (fst (get_users_id_posts fails i ds)) \<noteq> 404
   \<and> (fails PostFind = None \<longrightarrow>
        get_users_id_posts fails (Some n) ds =
          (reply 200 (PostsJson (filter (\<lambda>p. userId p = n) (posts ds))), issue PostFind ds))
   \<and> (fails PostFind = None \<and> (\<forall>p \<in> set (posts ds). userId p \<noteq> n) \<longrightarrow>
        fst (get_users_id_posts fails (Some n) ds) = reply 200 (PostsJson []))
   \<and> get_users_id_posts fails None ds =
       (reply 500 (Message ''Error fetching posts''), issue PostFind ds)"
proof -
  have never: "status (fst (get_users_id_posts fails i ds)) \<noteq> 404"
    by (cases i; cases "fails PostFind")
       (simp_all add: get_users_id_posts_def postRepository_find_def reply_def)
  have listed: "fails PostFind = None \<longrightarrow>
        get_users_id_posts fails (Some n) ds =
          (reply 200 (PostsJson (filter (\<lambda>p. userId p = n) (posts ds))), issue PostFind ds)"
    by (simp add: get_users_id_posts_def postRepository_find_def)
  have none: "(\<forall>p \<in> set (posts ds). userId p \<noteq> n) \<Longrightarrow>
      filter (\<lambda>p. userId p = n) (posts ds) = []"
    by (simp add: filter_empty_conv)
  have nan: "get_users_id_posts fails None ds =
       (reply 500 (Message ''Error fetching posts''), issue PostFind ds)"
    by (cases "fails PostFind") (simp_all add: get_users_id_posts_def postRepository_find_def)
  from never listed none nan show ?thesis by simp
qed

theorem get_users_id_posts_owned_witness:
  "get_users_id_posts no_faults (Some 1) (end_to_end (\<lambda>v. Rejected)) =
     (reply 200 (PostsJson [first_post]), issue PostFind (end_to_end (\<lambda>v. Rejected)))
   \<and> fst (get_users_id_posts no_faults (Some 9) (end_to_end (\<lambda>v. Rejected))) =
       reply 200 (PostsJson [])"
proof -
  have f: "no_faults PostFind = None" by (simp add: no_faults_def)
  have e: "\<forall>p \<in> set (posts (end_to_end (\<lambda>v. Rejected))). userId p \<noteq> 9"
    by (simp add: first_post_def)
  from get_users_id_posts_owned[of no_faults "Some 1" "end_to_end (\<lambda>v. Rejected)" 1] f
  have 1: "get_users_id_posts no_faults (Some 1) (end_to_end (\<lambda>v. Rejected)) =
          (reply 200 (PostsJson (filter (\<lambda>p. userId p = 1) (posts (end_to_end (\<lambda>v. Rejected))))),
           issue PostFind (end_to_end (\<lambda>v. Rejected)))" by blast
  from get_users_id_posts_owned[of no_faults "Some 9" "end_to_end (\<lambda>v. Rejected)" 9] f e
  have 2: "fst (get_users_id_posts no_faults (Some 9) (end_to_end (\<lambda>v. Rejected))) =
           reply 200 (PostsJson [])"
    by blast
  from 1 2 show ?thesis by (simp add: first_post_def)
qed

text \<open>
  C5. POST /posts with truthy title, description and userId, where no user with
  identity userId exists: the lookup accepts the value and reads it as the key of no
  user row (for a numeric userId: no user row has that number as key). When the
  lookup does not throw the answer is 404 "User not found"; and whether it throws or
  not, the only statement issued is the user lookup and the tables are unchanged, so
  no post row is written.
\<close>

theorem post_posts_unknown_user:
  assumes "truthy (body_field b ''title'')" and "truthy (body_field b ''description'')"
    and "truthy (body_field b ''userId'')"
    and "where_id ds (body_field b ''userId'') \<noteq> Rejected"
    and "\<forall>u \<in> set (users ds). where_id ds (body_field b ''userId'') \<noteq> Key (user_id u)"
  shows "(fails UserFindOne = None \<longrightarrow>
            post_posts fails b ds = (reply 404 (Message ''User not found''), issue UserFindOne ds))
         \<and> posts (snd (post_posts fails b ds)) = posts ds
         \<and> users (snd (post_posts fails b ds)) = users ds
         \<and> issued ds (snd (post_posts fails b ds)) = [UserFindOne]"
proof -
  have look: "fails UserFindOne = None \<Longrightarrow>
      userRepository_findOne fails (body_field b ''userId'') ds = (Inr None, issue UserFindOne ds)"
  proof (cases "where_id ds (body_field b ''userId'')")
    case Rejected
    with assms(4) show ?thesis by simp
  next
    case NoKey
    then show "fails UserFindOne = None \<Longrightarrow> ?thesis"
      by (simp add: userRepository_findOne_def)
  next
    case (Key n)
    with assms(5) have "\<forall>u \<in> set (users ds). user_id u \<noteq> n" by auto
    then have "find (\<lambda>u. user_id u = n) (users ds) = None"
      by (simp add: find_None_iff)
    with Key show "fails UserFindOne = None \<Longrightarrow> ?thesis"
      by (simp add: userRepository_findOne_def)
  qed
  show ?thesis
  proof (cases "fails UserFindOne")
    case None
    with look assms(1-3) show ?thesis
      by (simp add: post_posts_def issued_def)
  next
    case (Some e)
    with assms(1-3) show ?thesis
      by (simp add: post_posts_def userRepository_findOne_def issued_def)
  qed
qed

theorem post_posts_unknown_user_witness:
  "post_posts no_faults
     [''title'' \<mapsto> JSString ''T'', ''description'' \<mapsto> JSString ''D'', ''userId'' \<mapsto> JSNumber 7]
     (end_to_end (\<lambda>v. Rejected)) =
   (reply 404 (Message ''User not found''), issue UserFindOne (end_to_end (\<lambda>v. Rejected)))
   \<and> posts (snd (post_posts no_faults
        [''title'' \<mapsto> JSString ''T'', ''description'' \<mapsto> JSString ''D'', ''userId'' \<mapsto> JSNumber 7]
        (end_to_end (\<lambda>v. Rejected)))) = [first_post]"
proof -
  let ?b = "[''title'' \<mapsto> JSString ''T'', ''description'' \<mapsto> JSString ''D'',
             ''userId'' \<mapsto> JSNumber 7]"
  let ?ds = "end_to_end (\<lambda>v. Rejected)"
  have t: "truthy (body_field ?b ''title'')" "truthy (body_field ?b ''description'')"
    "truthy (body_field ?b ''userId'')"
    by (simp_all add: body_field_def)
  have a: "where_id ?ds (body_field ?b ''userId'') \<noteq> Rejected"
    by (simp add: body_field_def)
  have n: "\<forall>u \<in> set (users ?ds). where_id ?ds (body_field ?b ''userId'') \<noteq> Key (user_id u)"
    by (simp add: body_field_def alice_def)
  have f: "no_faults UserFindOne = None" by (simp add: no_faults_def)
  from post_posts_unknown_user[OF t a n, of no_faults] f show ?thesis by simp
qed

section \<open>Not-found and failure responses\<close>

text \<open>
  C9. Whenever a handler answers 404, both tables and both key counters are as they
  were before the request, and the only statement the request issued is the one
  lookup (\<open>UserFindOne\<close> or \<open>PostFindOne\<close>): the not-found check comes before every
  write.
\<close>

theorem not_found_leaves_state:
  assumes "handle fails req ds = (r, ds')" and "status r = 404"
  shows "users ds' = users ds \<and> posts ds' = posts ds
         \<and> nextUserId ds' = nextUserId ds \<and> nextPostId ds' = nextPostId ds
         \<and> (issued ds ds' = [UserFindOne] \<or> issued ds ds' = [PostFindOne])"
  using assms
  by (cases req)
     (auto simp: handler_defs repository_defs reply_def issued_def Let_def
           split: option.splits reading.splits if_splits)

theorem not_found_leaves_state_witness:
  "status (fst (handle no_faults (DELETE_users_id (Some 7)) (end_to_end (\<lambda>v. Rejected)))) = 404
   \<and> users (snd (handle no_faults (DELETE_users_id (Some 7)) (end_to_end (\<lambda>v. Rejected)))) = [alice]
   \<and> posts (snd (handle no_faults (DELETE_users_id (Some 7)) (end_to_end (\<lambda>v. Rejected)))) = [first_post]
   \<and> issued (end_to_end (\<lambda>v. Rejected)) (snd (handle no_faults (DELETE_users_id (Some 7)) (end_to_end (\<lambda>v. Rejected)))) =
       [UserFindOne]"
proof -
  let ?h = "handle no_faults (DELETE_users_id (Some 7)) (end_to_end (\<lambda>v. Rejected))"
  have p: "?h = (fst ?h, snd ?h)" by simp
  have s: "status (fst ?h) = 404"
    by (simp add: delete_users_id_def userRepository_findOne_path no_faults_def alice_def
          reply_def)
  have i: "issued (end_to_end (\<lambda>v. Rejected)) (snd ?h) \<noteq> [PostFindOne]"
    by (simp add: delete_users_id_def userRepository_findOne_path no_faults_def alice_def
          issued_def)
  from not_found_leaves_state[OF p s] s i show ?thesis by simp
qed

text \<open>
  C8. For every endpoint: when a repository call issued while handling the request
  throws, the handler answers 500 with the fixed message of its own catch branch.
  The message is a constant of the endpoint; the error text that \<open>fails\<close> carries does
  not occur in the response.
\<close>

theorem storage_failure_generic_500:
  assumes "handle fails req ds = (r, ds')"
    and "\<exists>q \<in> set (issued ds ds'). fails q \<noteq> None"
  shows "r = reply 500 (Message
           (case req of
              GET_users \<Rightarrow> ''Error fetching users''
            | POST_users b \<Rightarrow> ''Error creating user''
            | PUT_users_id i b \<Rightarrow> ''Error updating user''
            | DELETE_users_id i \<Rightarrow> ''Error deleting user''
            | POST_posts b \<Rightarrow> ''Error creating post''
            | GET_users_id_posts i \<Rightarrow> ''Error fetching posts''
            | PUT_posts_id i b \<Rightarrow> ''Error updating post''
            | DELETE_posts_id i \<Rightarrow> ''Error deleting post''))"
  using assms
  by (cases req)
     (auto simp: handler_defs repository_defs issued_def Let_def
           split: option.splits reading.splits if_splits)

theorem storage_failure_generic_500_witness:
  "fst (handle (\<lambda>q. if q = UserFind then Some ''ECONNREFUSED'' else None) GET_users (end_to_end (\<lambda>v. Rejected))) =
     reply 500 (Message ''Error fetching users'')
   \<and> fst (handle (\<lambda>q. if q = PostSave then Some ''ER_LOCK_DEADLOCK'' else None)
           (POST_posts [''title'' \<mapsto> JSString ''T'', ''description'' \<mapsto> JSString ''D'',
                        ''userId'' \<mapsto> JSNumber 1])
           (end_to_end (\<lambda>v. Rejected))) =
     reply 500 (Message ''Error creating post'')"
proof -
  let ?f1 = "\<lambda>q. if q = UserFind then Some ''ECONNREFUSED'' else None"
  let ?f2 = "\<lambda>q. if q = PostSave then Some ''ER_LOCK_DEADLOCK'' else None"
  let ?r2 = "POST_posts [''title'' \<mapsto> JSString ''T'', ''description'' \<mapsto> JSString ''D'',
                         ''userId'' \<mapsto> JSNumber 1]"
  have p1: "handle ?f1 GET_users (end_to_end (\<lambda>v. Rejected)) =
            (fst (handle ?f1 GET_users (end_to_end (\<lambda>v. Rejected))), snd (handle ?f1 GET_users (end_to_end (\<lambda>v. Rejected))))"
    by simp
  have q1: "\<exists>q \<in> set (issued (end_to_end (\<lambda>v. Rejected)) (snd (handle ?f1 GET_users (end_to_end (\<lambda>v. Rejected))))). ?f1 q \<noteq> None"
    by (simp add: get_users_def userRepository_find_def issued_def)
  have p2: "handle ?f2 ?r2 (end_to_end (\<lambda>v. Rejected)) =
            (fst (handle ?f2 ?r2 (end_to_end (\<lambda>v. Rejected))), snd (handle ?f2 ?r2 (end_to_end (\<lambda>v. Rejected))))"
    by simp
  have q2: "\<exists>q \<in> set (issued (end_to_end (\<lambda>v. Rejected)) (snd (handle ?f2 ?r2 (end_to_end (\<lambda>v. Rejected))))). ?f2 q \<noteq> None"
    by (simp add: post_posts_def userRepository_findOne_def postRepository_save_new_def
          issued_def body_field_def alice_def)
  from storage_failure_generic_500[OF p1 q1] storage_failure_generic_500[OF p2 q2]
  show ?thesis by simp
qed

text \<open>
  A query that the engine rejects is caught in the same way: a path segment that is
  not a number answers 500 with the route's message on each of the five routes that
  take one, and so does POST /posts with a userId that the engine rejects.
\<close>

theorem rejected_query_generic_500:
  "fst (put_users_id fails None b ds) = reply 500 (Message ''Error updating user'')
   \<and> fst (delete_users_id fails None ds) = reply 500 (Message ''Error deleting user'')
   \<and> fst (get_users_id_posts fails None ds) = reply 500 (Message ''Error fetching posts'')
   \<and> fst (put_posts_id fails None b ds) = reply 500 (Message ''Error updating post'')
   \<and> fst (delete_posts_id fails None ds) = reply 500 (Message ''Error deleting post'')
   \<and> (truthy (body_field b ''title'') \<and> truthy (body_field b ''description'')
        \<and> truthy (body_field b ''userId'')
        \<and> where_id ds (body_field b ''userId'') = Rejected \<longrightarrow>
        fst (post_posts fails b ds) = reply 500 (Message ''Error creating post''))"
proof -
  have 1: "fst (put_users_id fails None b ds) = reply 500 (Message ''Error updating user'')"
    by (cases "fails UserFindOne") (simp_all add: put_users_id_def userRepository_findOne_def)
  have 2: "fst (delete_users_id fails None ds) = reply 500 (Message ''Error deleting user'')"
    by (cases "fails UserFindOne") (simp_all add: delete_users_id_def userRepository_findOne_def)
  have 3: "fst (get_users_id_posts fails None ds) = reply 500 (Message ''Error fetching posts'')"
    by (cases "fails PostFind") (simp_all add: get_users_id_posts_def postRepository_find_def)
  have 4: "fst (put_posts_id fails None b ds) = reply 500 (Message ''Error updating post'')"
    by (cases "fails PostFindOne") (simp_all add: put_posts_id_def postRepository_findOne_def)
  have 5: "fst (delete_posts_id fails None ds) = reply 500 (Message ''Error deleting post'')"
    by (cases "fails PostFindOne") (simp_all add: delete_posts_id_def postRepository_findOne_def)
  have 6: "truthy (body_field b ''title'') \<and> truthy (body_field b ''description'')
        \<and> truthy (body_field b ''userId'')
        \<and> where_id ds (body_field b ''userId'') = Rejected \<longrightarrow>
        fst (post_posts fails b ds) = reply 500 (Message ''Error creating post'')"
    by (cases "fails UserFindOne") (simp_all add: post_posts_def userRepository_findOne_def)
  from 1 2 3 4 5 6 show ?thesis by blast
qed

theorem rejected_query_generic_500_witness:
  "fst (get_users_id_posts no_faults None (end_to_end (\<lambda>v. Rejected))) =
     reply 500 (Message ''Error fetching posts'')
   \<and> fst (post_posts no_faults
        [''title'' \<mapsto> JSString ''T'', ''description'' \<mapsto> JSString ''D'',
         ''userId'' \<mapsto> JSArray []]
        (end_to_end (\<lambda>v. Rejected))) =
     reply 500 (Message ''Error creating post'')"
proof -
  let ?b = "[''title'' \<mapsto> JSString ''T'', ''description'' \<mapsto> JSString ''D'',
             ''userId'' \<mapsto> JSArray []]"
  let ?ds = "end_to_end (\<lambda>v. Rejected)"
  have h: "truthy (body_field ?b ''title'') \<and> truthy (body_field ?b ''description'')
        \<and> truthy (body_field ?b ''userId'')
        \<and> where_id ?ds (body_field ?b ''userId'') = Rejected"
    by (simp add: body_field_def where_id_def)
  from rejected_query_generic_500[of no_faults ?b ?ds] h show ?thesis by blast
qed

section \<open>Key constraints are preserved by every request\<close>

lemma constraints_issue [simp]: "constraints (issue q ds) = constraints ds"
  by (simp add: constraints_def)

lemma constraints_owned:
  assumes "constraints ds"
  shows "owned ds"
  unfolding owned_def list_all_iff
proof
  fix p assume "p \<in> set (posts ds)"
  with assms have "userId p \<in> set (map user_id (users ds))"
    by (simp add: constraints_def list_all_iff)
  moreover from assms have "distinct (map user_id (users ds))"
    by (simp add: constraints_def)
  ultimately show "length (filter (\<lambda>u. user_id u = userId p) (users ds)) = 1"
    by (rule exactly_one_key[rotated])
qed

lemma constraints_insert_user:
  assumes "constraints ds"
  shows "constraints (ds\<lparr>users := users ds @ [\<lparr>user_id = nextUserId ds, firstName = a,
                                                  lastName = b, email = c\<rparr>],
                          nextUserId := nextUserId ds + 1\<rparr>)"
  using assms by (fastforce simp: constraints_def list_all_iff)

lemma constraints_update_user:
  assumes "constraints ds"
  shows "constraints (ds\<lparr>users := map (\<lambda>r. if user_id r = user_id u then u else r) (users ds)\<rparr>)"
proof -
  have keys: "map user_id (map (\<lambda>r. if user_id r = user_id u then u else r) (users ds))
              = map user_id (users ds)"
    by (rule map_key_replace) simp
  have lt: "\<forall>r \<in> set (map (\<lambda>r. if user_id r = user_id u then u else r) (users ds)).
              user_id r < nextUserId ds"
    using assms by (auto simp: constraints_def list_all_iff)
  show ?thesis
    using assms keys lt unfolding constraints_def list_all_iff
    by (simp del: set_map map_map)
qed

lemma constraints_remove_user:
  assumes "constraints ds"
  shows "constraints (ds\<lparr>users := filter (\<lambda>r. user_id r \<noteq> k) (users ds),
                          posts := filter (\<lambda>p. userId p \<noteq> k) (posts ds)\<rparr>)"
  using assms by (auto simp: constraints_def list_all_iff distinct_map_filter)

lemma constraints_insert_post:
  assumes "constraints ds" and "u \<in> set (users ds)"
  shows "constraints (ds\<lparr>posts := posts ds @ [\<lparr>post_id = nextPostId ds, title = a,
                                                  description = b, userId = user_id u\<rparr>],
                          nextPostId := nextPostId ds + 1\<rparr>)"
  using assms by (fastforce simp: constraints_def list_all_iff)

lemma constraints_update_post:
  assumes "constraints ds" and "p \<in> set (posts ds)" and "userId p' = userId p"
  shows "constraints (ds\<lparr>posts := map (\<lambda>r. if post_id r = post_id p' then p' else r) (posts ds)\<rparr>)"
proof -
  have keys: "map post_id (map (\<lambda>r. if post_id r = post_id p' then p' else r) (posts ds))
              = map post_id (posts ds)"
    by (rule map_key_replace) simp
  have lt: "\<forall>r \<in> set (map (\<lambda>r. if post_id r = post_id p' then p' else r) (posts ds)).
              post_id r < nextPostId ds \<and> userId r \<in> set (map user_id (users ds))"
    using assms by (auto simp: constraints_def list_all_iff)
  show ?thesis
    using assms(1) keys lt unfolding constraints_def list_all_iff
    by (simp del: set_map map_map)
qed

lemma constraints_remove_post:
  assumes "constraints ds"
  shows "constraints (ds\<lparr>posts := filter (\<lambda>r. post_id r \<noteq> k) (posts ds)\<rparr>)"
  using assms by (auto simp: constraints_def list_all_iff distinct_map_filter)

lemma get_users_constraints: "constraints ds \<Longrightarrow> constraints (snd (get_users fails ds))"
  by (simp add: get_users_def userRepository_find_def split: option.splits)

lemma post_users_constraints: "constraints ds \<Longrightarrow> constraints (snd (post_users fails b ds))"
  by (simp add: post_users_def userRepository_save_new_def Let_def constraints_insert_user
           split: option.splits)

lemma put_users_id_constraints:
  "constraints ds \<Longrightarrow> constraints (snd (put_users_id fails i b ds))"
  using constraints_update_user[of ds "assign_user b u" for u]
  by (simp add: put_users_id_def userRepository_findOne_def userRepository_save_def
           split: option.splits reading.splits)

lemma delete_users_id_constraints:
  "constraints ds \<Longrightarrow> constraints (snd (delete_users_id fails i ds))"
  by (simp add: delete_users_id_def userRepository_findOne_def userRepository_remove_def
                constraints_remove_user
           split: option.splits reading.splits)

lemma post_posts_constraints:
  "constraints ds \<Longrightarrow> constraints (snd (post_posts fails b ds))"
  by (auto simp: post_posts_def userRepository_findOne_def postRepository_save_new_def Let_def
           split: option.splits reading.splits
           dest!: find_mem intro!: constraints_insert_post)

lemma get_users_id_posts_constraints:
  "constraints ds \<Longrightarrow> constraints (snd (get_users_id_posts fails i ds))"
  by (simp add: get_users_id_posts_def postRepository_find_def split: option.splits reading.splits)

lemma put_posts_id_constraints:
  "constraints ds \<Longrightarrow> constraints (snd (put_posts_id fails i b ds))"
proof -
  assume c: "constraints ds"
  have "constraints (ds\<lparr>posts := map (\<lambda>r. if post_id r = post_id p then assign_post b p else r)
                                        (posts ds)\<rparr>)"
    if "find (\<lambda>p. post_id p = n) (posts ds) = Some p" for p n
    using constraints_update_post[OF c, of p "assign_post b p"] find_mem[OF that] by simp
  with c show ?thesis
    by (simp add: put_posts_id_def postRepository_findOne_def postRepository_save_def
             split: option.splits reading.splits)
qed

lemma delete_posts_id_constraints:
  "constraints ds \<Longrightarrow> constraints (snd (delete_posts_id fails i ds))"
  by (simp add: delete_posts_id_def postRepository_findOne_def postRepository_remove_def
                constraints_remove_post
           split: option.splits reading.splits)

lemma handle_constraints: "constraints ds \<Longrightarrow> constraints (snd (handle fails req ds))"
  by (cases req)
     (simp_all add: get_users_constraints post_users_constraints put_users_id_constraints
        delete_users_id_constraints post_posts_constraints get_users_id_posts_constraints
        put_posts_id_constraints delete_posts_id_constraints)

lemma initial_constraints: "constraints (initial engine)"
  by (simp add: constraints_def initial_def)

lemma reachable_constraints: "reachable ds \<Longrightarrow> constraints ds"
  by (induction rule: reachable.induct) (simp_all add: initial_constraints handle_constraints)

section \<open>Ownership and cascading delete\<close>

lemma delete_users_id_existing:
  assumes "find (\<lambda>r. user_id r = i) (users ds) = Some u"
    and "fails UserFindOne = None" and "fails UserRemove = None"
  shows "delete_users_id fails (Some i) ds =
           (reply 200 (Message ''User deleted successfully''),
            issue UserRemove (issue UserFindOne
              (ds\<lparr>users := filter (\<lambda>r. user_id r \<noteq> i) (users ds),
                  posts := filter (\<lambda>p. userId p \<noteq> i) (posts ds)\<rparr>)))"
proof -
  from find_key_mem[OF assms(1)] have "user_id u = i" by simp
  with assms show ?thesis
    by (simp add: delete_users_id_def userRepository_findOne_path userRepository_remove_def)
qed

lemma delete_cascade_frame:
  assumes c: "constraints ds"
    and h: "i \<in> set (map user_id (users ds))" "fails UserFindOne = None" "fails UserRemove = None"
  shows "fst (delete_users_id fails (Some i) ds) =
            reply 200 (Message ''User deleted successfully'')
          \<and> users (snd (delete_users_id fails (Some i) ds)) =
              filter (\<lambda>r. user_id r \<noteq> i) (users ds)
          \<and> posts (snd (delete_users_id fails (Some i) ds)) =
              filter (\<lambda>p. userId p \<noteq> i) (posts ds)
          \<and> i \<notin> set (map user_id (users (snd (delete_users_id fails (Some i) ds))))
          \<and> i \<notin> set (map userId (posts (snd (delete_users_id fails (Some i) ds))))
          \<and> issued ds (snd (delete_users_id fails (Some i) ds)) = [UserFindOne, UserRemove]
          \<and> owned (snd (delete_users_id fails (Some i) ds))"
proof -
  from h(1) obtain u where u: "find (\<lambda>r. user_id r = i) (users ds) = Some u"
    using find_key_ex[of i user_id "users ds"] by blast
  have eq: "delete_users_id fails (Some i) ds =
           (reply 200 (Message ''User deleted successfully''),
            issue UserRemove (issue UserFindOne
              (ds\<lparr>users := filter (\<lambda>r. user_id r \<noteq> i) (users ds),
                  posts := filter (\<lambda>p. userId p \<noteq> i) (posts ds)\<rparr>)))"
    using u h(2,3) by (rule delete_users_id_existing)
  have o: "owned (snd (delete_users_id fails (Some i) ds))"
    using c by (intro constraints_owned delete_users_id_constraints)
  have a: "i \<notin> set (map user_id (filter (\<lambda>r. user_id r \<noteq> i) (users ds)))" by auto
  have b: "i \<notin> set (map userId (filter (\<lambda>p. userId p \<noteq> i) (posts ds)))" by auto
  have q: "issued ds (snd (delete_users_id fails (Some i) ds)) = [UserFindOne, UserRemove]"
    unfolding eq by (simp add: issued_def)
  show ?thesis
    using o a b q unfolding eq by simp
qed

text \<open>
  C1. In every state the service reaches, every post row has exactly one user row
  whose key is the post's owner column, and this still holds after any further
  request. DELETE /users/:id on an existing user, when its two statements succeed,
  answers 200 and removes exactly the user rows with that key and the post rows with
  that owner, in the one \<open>UserRemove\<close> statement: afterwards no user has the key and
  no post names it.
\<close>

theorem posts_owned_delete_cascades:
  assumes "reachable ds"
  shows "owned ds
    \<and> (\<forall>fails req. owned (snd (handle fails req ds)))
    \<and> (\<forall>fails i. i \<in> set (map user_id (users ds)) \<and> fails UserFindOne = None
                   \<and> fails UserRemove = None \<longrightarrow>
          fst (delete_users_id fails (Some i) ds) =
            reply 200 (Message ''User deleted successfully'')
          \<and> users (snd (delete_users_id fails (Some i) ds)) =
              filter (\<lambda>r. user_id r \<noteq> i) (users ds)
          \<and> posts (snd (delete_users_id fails (Some i) ds)) =
              filter (\<lambda>p. userId p \<noteq> i) (posts ds)
          \<and> i \<notin> set (map user_id (users (snd (delete_users_id fails (Some i) ds))))
          \<and> i \<notin> set (map userId (posts (snd (delete_users_id fails (Some i) ds))))
          \<and> issued ds (snd (delete_users_id fails (Some i) ds)) = [UserFindOne, UserRemove]
          \<and> owned (snd (delete_users_id fails (Some i) ds)))"
proof -
  from assms have c: "constraints ds" by (rule reachable_constraints)
  then have 1: "owned ds" by (rule constraints_owned)
  have 2: "\<forall>fails req. owned (snd (handle fails req ds))"
    using c by (intro allI constraints_owned handle_constraints)
  from 1 2 delete_cascade_frame[OF c] show ?thesis by blast
qed

theorem posts_owned_delete_cascades_witness:
  "owned (end_to_end (\<lambda>v. Rejected))
   \<and> fst (delete_users_id no_faults (Some 1) (end_to_end (\<lambda>v. Rejected))) =
       reply 200 (Message ''User deleted successfully'')
   \<and> users (snd (delete_users_id no_faults (Some 1) (end_to_end (\<lambda>v. Rejected)))) = []
   \<and> posts (snd (delete_users_id no_faults (Some 1) (end_to_end (\<lambda>v. Rejected)))) = []"
proof -
  have h: "(1::int) \<in> set (map user_id (users (end_to_end (\<lambda>v. Rejected)))) \<and> no_faults UserFindOne = None
           \<and> no_faults UserRemove = None"
    by (simp add: alice_def no_faults_def)
  from posts_owned_delete_cascades[OF end_to_end_reachable] h
  have "owned (end_to_end (\<lambda>v. Rejected))"
    and "fst (delete_users_id no_faults (Some 1) (end_to_end (\<lambda>v. Rejected))) =
           reply 200 (Message ''User deleted successfully'')"
    and "users (snd (delete_users_id no_faults (Some 1) (end_to_end (\<lambda>v. Rejected)))) =
           filter (\<lambda>r. user_id r \<noteq> 1) (users (end_to_end (\<lambda>v. Rejected)))"
    and "posts (snd (delete_users_id no_faults (Some 1) (end_to_end (\<lambda>v. Rejected)))) =
           filter (\<lambda>p. userId p \<noteq> 1) (posts (end_to_end (\<lambda>v. Rejected)))"
    by blast+
  then show ?thesis by (simp add: alice_def first_post_def)
qed

section \<open>Partial updates\<close>

lemma put_users_id_existing:
  assumes "find (\<lambda>r. user_id r = i) (users ds) = Some u"
    and "fails UserFindOne = None" and "fails UserSave = None"
  shows "put_users_id fails (Some i) b ds =
           (reply 200 (UserJson (assign_user b u)),
            issue UserSave (issue UserFindOne
              (ds\<lparr>users := map (\<lambda>r. if user_id r = i then assign_user b u else r)
                                (users ds)\<rparr>)))"
proof -
  from find_key_mem[OF assms(1)] have "user_id u = i" by simp
  with assms show ?thesis
    by (simp add: put_users_id_def userRepository_findOne_path userRepository_save_def)
qed

text \<open>
  C2. PUT /users/:id on an existing user, when the lookup and the save succeed,
  answers 200 with the updated record and stores it: each of firstName, lastName and
  email is the body's value when that value is truthy, and the stored value
  otherwise. In particular a body with \<^verbatim>\<open>firstName: ""\<close> leaves firstName as it was.
\<close>

theorem put_users_id_overwrites_truthy:
  assumes "find (\<lambda>r. user_id r = i) (users ds) = Some u"
    and "fails UserFindOne = None" and "fails UserSave = None"
  shows "put_users_id fails (Some i) b ds =
           (reply 200 (UserJson
              \<lparr>user_id = user_id u,
               firstName = (if truthy (body_field b ''firstName'')
                            then body_field b ''firstName'' else firstName u),
               lastName = (if truthy (body_field b ''lastName'')
                           then body_field b ''lastName'' else lastName u),
               email = (if truthy (body_field b ''email'')
                        then body_field b ''email'' else email u)\<rparr>),
            issue UserSave (issue UserFindOne
              (ds\<lparr>users :=
                    map (\<lambda>r. if user_id r = i
                              then \<lparr>user_id = user_id u,
                                    firstName = (if truthy (body_field b ''firstName'')
                                                 then body_field b ''firstName''
                                                 else firstName u),
                                    lastName = (if truthy (body_field b ''lastName'')
                                                then body_field b ''lastName''
                                                else lastName u),
                                    email = (if truthy (body_field b ''email'')
                                             then body_field b ''email'' else email u)\<rparr>
                              else r)
                        (users ds)\<rparr>)))
         \<and> find (\<lambda>r. user_id r = i) (users (snd (put_users_id fails (Some i) b ds))) =
             Some \<lparr>user_id = user_id u,
                   firstName = (if truthy (body_field b ''firstName'')
                                then body_field b ''firstName'' else firstName u),
                   lastName = (if truthy (body_field b ''lastName'')
                               then body_field b ''lastName'' else lastName u),
                   email = (if truthy (body_field b ''email'')
                            then body_field b ''email'' else email u)\<rparr>
         \<and> (body_field b ''firstName'' = JSString [] \<longrightarrow>
              map_option firstName
                (find (\<lambda>r. user_id r = i) (users (snd (put_users_id fails (Some i) b ds)))) =
              Some (firstName u))"
proof -
  from find_key_mem[OF assms(1)] have k: "user_id (assign_user b u) = i" by simp
  note eq = put_users_id_existing[OF assms, of b]
  have f: "find (\<lambda>r. user_id r = i) (users (snd (put_users_id fails (Some i) b ds))) =
             Some (assign_user b u)"
    unfolding eq using find_replace[OF assms(1) k] by simp
  have e: "body_field b ''firstName'' = JSString [] \<longrightarrow>
           map_option firstName
             (find (\<lambda>r. user_id r = i) (users (snd (put_users_id fails (Some i) b ds)))) =
           Some (firstName u)"
    unfolding f by simp
  from eq f e show ?thesis
    unfolding assign_user_record[symmetric] by blast
qed

theorem put_users_id_overwrites_truthy_witness:
  "fst (put_users_id no_faults (Some 1)
          [''firstName'' \<mapsto> JSString [], ''lastName'' \<mapsto> JSString ''C''] (end_to_end (\<lambda>v. Rejected))) =
     reply 200 (UserJson \<lparr>user_id = 1, firstName = JSString ''A'', lastName = JSString ''C'',
                           email = JSString ''a@b.com''\<rparr>)
   \<and> map_option firstName
       (find (\<lambda>r. user_id r = 1)
          (users (snd (put_users_id no_faults (Some 1)
                   [''firstName'' \<mapsto> JSString [], ''lastName'' \<mapsto> JSString ''C''] (end_to_end (\<lambda>v. Rejected)))))) =
     Some (JSString ''A'')"
proof -
  have a: "find (\<lambda>r. user_id r = 1) (users (end_to_end (\<lambda>v. Rejected))) = Some alice"
    by (simp add: alice_def)
  have b: "no_faults UserFindOne = None" "no_faults UserSave = None"
    by (simp_all add: no_faults_def)
  from put_users_id_overwrites_truthy[OF a b,
      of "[''firstName'' \<mapsto> JSString [], ''lastName'' \<mapsto> JSString ''C'']"]
  show ?thesis by (simp add: alice_def body_field_def)
qed

text \<open>
  C10. PUT /users/:id on an existing user with a body that supplies no truthy
  firstName, lastName or email (the empty body for one), when the lookup and the save
  succeed, answers 200 with the record as it was, and both tables and both key
  counters are unchanged. The user keys are unique (PRIMARY KEY of init.sql), as they
  are in every reachable state (\<open>reachable_constraints\<close>).
\<close>

theorem put_users_id_no_truthy_identity:
  assumes "distinct (map user_id (users ds))"
    and "find (\<lambda>r. user_id r = i) (users ds) = Some u"
    and "\<not> truthy (body_field b ''firstName'')" and "\<not> truthy (body_field b ''lastName'')"
    and "\<not> truthy (body_field b ''email'')"
    and "fails UserFindOne = None" and "fails UserSave = None"
  shows "put_users_id fails (Some i) b ds =
           (reply 200 (UserJson u), issue UserSave (issue UserFindOne ds))
         \<and> users (snd (put_users_id fails (Some i) b ds)) = users ds
         \<and> posts (snd (put_users_id fails (Some i) b ds)) = posts ds
         \<and> nextUserId (snd (put_users_id fails (Some i) b ds)) = nextUserId ds
         \<and> nextPostId (snd (put_users_id fails (Some i) b ds)) = nextPostId ds
         \<and> find (\<lambda>r. user_id r = i) (users (snd (put_users_id fails (Some i) b ds))) = Some u"
proof -
  from find_key_mem[OF assms(2)] have mem: "u \<in> set (users ds)" and k: "user_id u = i"
    by simp_all
  from assms(3-5) have same: "assign_user b u = u"
    by (simp add: assign_user_def)
  have "map (\<lambda>r. if user_id r = user_id u then u else r) (users ds) = users ds"
    using assms(1) mem by (rule replace_same)
  with k have m: "map (\<lambda>r. if user_id r = i then u else r) (users ds) = users ds" by simp
  have eq: "put_users_id fails (Some i) b ds =
           (reply 200 (UserJson u), issue UserSave (issue UserFindOne ds))"
    using put_users_id_existing[OF assms(2,6,7), of b] unfolding same m by simp
  show ?thesis unfolding eq using assms(2) by simp
qed

theorem put_users_id_no_truthy_identity_witness:
  "put_users_id no_faults (Some 1) Map.empty (end_to_end (\<lambda>v. Rejected)) =
     (reply 200 (UserJson alice), issue UserSave (issue UserFindOne (end_to_end (\<lambda>v. Rejected))))
   \<and> users (snd (put_users_id no_faults (Some 1) Map.empty (end_to_end (\<lambda>v. Rejected)))) = [alice]"
proof -
  have d: "distinct (map user_id (users (end_to_end (\<lambda>v. Rejected))))" by simp
  have a: "find (\<lambda>r. user_id r = 1) (users (end_to_end (\<lambda>v. Rejected))) = Some alice"
    by (simp add: alice_def)
  have f: "\<not> truthy (body_field Map.empty ''firstName'')"
    "\<not> truthy (body_field Map.empty ''lastName'')" "\<not> truthy (body_field Map.empty ''email'')"
    by (simp_all add: body_field_def)
  have b: "no_faults UserFindOne = None" "no_faults UserSave = None"
    by (simp_all add: no_faults_def)
  from put_users_id_no_truthy_identity[OF d a f b] show ?thesis by simp
qed

lemma put_posts_id_existing:
  assumes "find (\<lambda>r. post_id r = i) (posts ds) = Some p"
  shows "put_posts_id fails (Some i) b ds =
           (case fails PostFindOne of
              Some e \<Rightarrow> (reply 500 (Message ''Error updating post''), issue PostFindOne ds)
            | None \<Rightarrow>
               (case fails PostSave of
                  Some e \<Rightarrow> (reply 500 (Message ''Error updating post''),
                              issue PostSave (issue PostFindOne ds))
                | None \<Rightarrow>
                    (reply 200 (PostJson (assign_post b p)),
                     issue PostSave (issue PostFindOne
                       (ds\<lparr>posts := map (\<lambda>r. if post_id r = i then assign_post b p else r)
                                         (posts ds)\<rparr>)))))"
proof -
  from find_key_mem[OF assms(1)] have "post_id p = i" by simp
  with assms show ?thesis
    by (simp add: put_posts_id_def postRepository_findOne_path postRepository_save_def
             split: option.splits)
qed

text \<open>
  C7. PUT /posts/:id on an existing post, for every body and whether or not a
  repository call throws: the user table, the keys of the posts and the owner columns
  of the posts are unchanged, and the post table is either unchanged or differs only
  in the title and description of the post with that key, each replaced by the body's
  value when it is truthy. A userId in the body is never read. When both statements
  succeed the answer is 200 with the updated post. The post keys are unique
  (PRIMARY KEY of init.sql).
\<close>

theorem put_posts_id_keeps_owner:
  assumes "distinct (map post_id (posts ds))"
    and "find (\<lambda>r. post_id r = i) (posts ds) = Some p"
  shows "users (snd (put_posts_id fails (Some i) b ds)) = users ds
         \<and> map post_id (posts (snd (put_posts_id fails (Some i) b ds))) = map post_id (posts ds)
         \<and> map userId (posts (snd (put_posts_id fails (Some i) b ds))) = map userId (posts ds)
         \<and> (posts (snd (put_posts_id fails (Some i) b ds)) = posts ds
             \<or> posts (snd (put_posts_id fails (Some i) b ds)) =
                 map (\<lambda>r. if post_id r = i
                           then r\<lparr>title := (if truthy (body_field b ''title'')
                                              then body_field b ''title'' else title r),
                                   description := (if truthy (body_field b ''description'')
                                                    then body_field b ''description''
                                                    else description r)\<rparr>
                           else r)
                     (posts ds))
         \<and> (fails PostFindOne = None \<and> fails PostSave = None \<longrightarrow>
              fst (put_posts_id fails (Some i) b ds) =
                reply 200 (PostJson
                  \<lparr>post_id = i,
                   title = (if truthy (body_field b ''title'')
                            then body_field b ''title'' else title p),
                   description = (if truthy (body_field b ''description'')
                                  then body_field b ''description'' else description p),
                   userId = userId p\<rparr>)
              \<and> find (\<lambda>r. post_id r = i) (posts (snd (put_posts_id fails (Some i) b ds))) =
                  Some \<lparr>post_id = i,
                        title = (if truthy (body_field b ''title'')
                                 then body_field b ''title'' else title p),
                        description = (if truthy (body_field b ''description'')
                                       then body_field b ''description'' else description p),
                        userId = userId p\<rparr>)"
proof -
  let ?new = "map (\<lambda>r. if post_id r = i then assign_post b p else r) (posts ds)"
  from find_key_mem[OF assms(2)] have mem: "p \<in> set (posts ds)" and k: "post_id p = i"
    by simp_all
  have rec: "assign_post b p =
     \<lparr>post_id = i,
      title = (if truthy (body_field b ''title'') then body_field b ''title'' else title p),
      description = (if truthy (body_field b ''description'') then body_field b ''description''
                     else description p),
      userId = userId p\<rparr>"
    using assign_post_record[of b p] k by simp
  have ids: "map post_id ?new = map post_id (posts ds)"
    using replace_keeps_column[OF assms(1) mem, of "assign_post b p" post_id] k by simp
  have owners: "map userId ?new = map userId (posts ds)"
    using replace_keeps_column[OF assms(1) mem, of "assign_post b p" userId] k by simp
  have rows: "?new = map (\<lambda>r. if post_id r = i
                           then r\<lparr>title := (if truthy (body_field b ''title'')
                                              then body_field b ''title'' else title r),
                                   description := (if truthy (body_field b ''description'')
                                                    then body_field b ''description''
                                                    else description r)\<rparr>
                           else r)
                     (posts ds)"
  proof (rule map_cong[OF refl])
    fix r assume r: "r \<in> set (posts ds)"
    from assms(1) have inj: "inj_on post_id (set (posts ds))" by (simp add: distinct_map)
    show "(if post_id r = i then assign_post b p else r) =
          (if post_id r = i
           then r\<lparr>title := (if truthy (body_field b ''title'')
                              then body_field b ''title'' else title r),
                   description := (if truthy (body_field b ''description'')
                                    then body_field b ''description''
                                    else description r)\<rparr>
           else r)"
    proof (cases "post_id r = i")
      case True
      with inj r mem k have "r = p" by (auto dest: inj_onD)
      with True show ?thesis by (cases p) (simp add: assign_post_def Let_def)
    next
      case False
      then show ?thesis by simp
    qed
  qed
  have found: "find (\<lambda>r. post_id r = i) ?new = Some (assign_post b p)"
    using find_replace[OF assms(2), of "assign_post b p"] k by simp
  note eq = put_posts_id_existing[OF assms(2), of fails b]
  show ?thesis
  proof (cases "fails PostFindOne")
    case (Some e)
    with eq show ?thesis by simp
  next
    case None
    note n1 = this
    show ?thesis
    proof (cases "fails PostSave")
      case (Some e)
      with eq n1 show ?thesis by simp
    next
      case None
      with eq n1 have e2: "put_posts_id fails (Some i) b ds =
          (reply 200 (PostJson (assign_post b p)),
           issue PostSave (issue PostFindOne (ds\<lparr>posts := ?new\<rparr>)))" by simp
      have p2: "posts (snd (put_posts_id fails (Some i) b ds)) = ?new"
        unfolding e2 by simp
      have u2: "users (snd (put_posts_id fails (Some i) b ds)) = users ds"
        unfolding e2 by simp
      have f2: "fst (put_posts_id fails (Some i) b ds) = reply 200 (PostJson (assign_post b p))"
        unfolding e2 by simp
      show ?thesis
        unfolding p2 u2 f2 ids owners found rec[symmetric] using rows by blast
    qed
  qed
qed

theorem put_posts_id_keeps_owner_witness:
  "map userId (posts (snd (put_posts_id no_faults (Some 1)
        [''title'' \<mapsto> JSString [], ''description'' \<mapsto> JSString ''New'', ''userId'' \<mapsto> JSNumber 5]
        (end_to_end (\<lambda>v. Rejected))))) = [1]
   \<and> fst (put_posts_id no_faults (Some 1)
        [''title'' \<mapsto> JSString [], ''description'' \<mapsto> JSString ''New'', ''userId'' \<mapsto> JSNumber 5]
        (end_to_end (\<lambda>v. Rejected))) =
      reply 200 (PostJson \<lparr>post_id = 1, title = JSString ''T'', description = JSString ''New'',
                            userId = 1\<rparr>)"
proof -
  let ?b = "[''title'' \<mapsto> JSString [], ''description'' \<mapsto> JSString ''New'',
             ''userId'' \<mapsto> JSNumber 5]"
  have d: "distinct (map post_id (posts (end_to_end (\<lambda>v. Rejected))))" by simp
  have a: "find (\<lambda>r. post_id r = 1) (posts (end_to_end (\<lambda>v. Rejected))) = Some first_post"
    by (simp add: first_post_def)
  have f: "no_faults PostFindOne = None \<and> no_faults PostSave = None"
    by (simp add: no_faults_def)
  from put_posts_id_keeps_owner[OF d a, of no_faults ?b] f
  have 1: "map userId (posts (snd (put_posts_id no_faults (Some 1) ?b (end_to_end (\<lambda>v. Rejected))))) =
           map userId (posts (end_to_end (\<lambda>v. Rejected)))"
    and 2: "fst (put_posts_id no_faults (Some 1) ?b (end_to_end (\<lambda>v. Rejected))) =
            reply 200 (PostJson
              \<lparr>post_id = 1,
               title = (if truthy (body_field ?b ''title'')
                        then body_field ?b ''title'' else title first_post),
               description = (if truthy (body_field ?b ''description'')
                              then body_field ?b ''description'' else description first_post),
               userId = userId first_post\<rparr>)"
    by blast+
  from 1 2 show ?thesis by (simp add: first_post_def body_field_def)
qed

end
